theory Spec2Isabelle
  imports Main
begin

section \<open>The MySQL connector of eveslackkills (database/mysql/databaseconnection.go)\<close>

text \<open>
  The connector talks to MySQL through sqlx. The Go functions are embedded below one
  by one; what sqlx and the server do is the environment, and is written out as
  follows.
  \<^item> The four tables named by the SQL statements of the source are lists of rows, in
    storage order.
  \<^item> Every call into the driver (\<open>Select\<close>, \<open>Get\<close>, \<open>QueryRowx\<close> with its \<open>Scan\<close>,
    \<open>Exec\<close>, \<open>LastInsertId\<close>) can fail for reasons outside the program (a dropped
    connection, a server error). The connection carries a script \<open>faults\<close>: the next
    driver call takes the head of the script, \<open>Some k\<close> makes that call fail with the
    driver error \<open>k\<close> and \<open>None\<close> (or an exhausted script) lets it execute.
  \<^item> A Go result pair \<open>(value, error)\<close> is a pair whose second component is
    \<open>None\<close> for a nil error; a nil pointer is \<open>None\<close> and a nil slice is \<open>[]\<close>.
  \<^item> The int64 values are only compared and copied by the connector, never computed
    with, so they are integers here.
\<close>

subsection \<open>Data\<close>

text \<open>\<open>ErrNoRows\<close> is \<open>sql.ErrNoRows\<close>, \<open>ErrDriver k\<close> an error of the driver or the server,
  and \<open>ErrNoRowsAvailable\<close> the error \<open>rows.Columns()\<close> gives on nil driver rows.\<close>

datatype error = ErrNoRows | ErrDriver nat | ErrNoRowsAvailable

text \<open>
  Modelled from the spec: the struct \<open>models.Corporation\<close> (package models is not
  among the sources). Its fields are the ones the connector reads and writes
  (\<open>ID\<close>, \<open>EVECorporationID\<close>, \<open>LastKillID\<close>, \<open>LastLossID\<close>, \<open>IgnoredRegions\<close>) and the
  ones the select lists name (name, killcomment, losscomment).
\<close>

record Corporation =
  ID :: int
  EVECorporationID :: int
  LastKillID :: int
  LastLossID :: int
  Name :: string
  KillComment :: string
  LossComment :: string
  IgnoredRegions :: "int list"

text \<open>
  Modelled from the spec: the rows of the tables \<open>corporations\<close> and \<open>ignoredregions\<close>
  (the schema is not among the sources; the column names are those of the SQL
  statements).
\<close>

record corporations_row =
  col_id :: int
  col_evecorporationid :: int
  col_lastkillid :: int
  col_lastlossid :: int
  col_name :: string
  col_killcomment :: string
  col_losscomment :: string

record ignoredregions_row =
  col_corporationID :: int
  col_regionid :: int

text \<open>
  The connection: the tables behind it, the counter of the auto-increment column
  \<open>corporations.id\<close>, the defaults of the three columns the INSERT of the source does
  not name, and the fault script.
\<close>

record DatabaseConnection =
  table_corporations :: "corporations_row list"
  table_ignoredregions :: "ignoredregions_row list"
  table_invTypes :: "(int \<times> string) list"
  table_mapSolarSystems :: "(int \<times> int) list"
  auto_increment :: int
  default_name :: string
  default_killcomment :: string
  default_losscomment :: string
  faults :: "nat option list"

text \<open>The caller's memory: \<open>*models.Corporation\<close> pointers are addresses into a store.\<close>

type_synonym ref = nat
type_synonym heap = "ref \<rightharpoonup> Corporation"

datatype 'a go = Returned 'a | Panicked

subsection \<open>The driver calls the connector makes\<close>

definition next_fault :: "DatabaseConnection \<Rightarrow> nat option" where
  "next_fault c = (case faults c of [] \<Rightarrow> None | f # fs \<Rightarrow> f)"

definition driver_call :: "DatabaseConnection \<Rightarrow> nat option \<times> DatabaseConnection" where
  "driver_call c = (next_fault c, c\<lparr>faults := tl (faults c)\<rparr>)"

text \<open>The next \<open>n\<close> driver calls execute.\<close>

definition executes :: "nat \<Rightarrow> DatabaseConnection \<Rightarrow> bool" where
  "executes n c = (\<forall>f\<in>set (take n (faults c)). f = None)"

text \<open>The error the first failing call of a script raises, if one fails.\<close>

fun first_fault :: "nat option list \<Rightarrow> nat option" where
  "first_fault [] = None"
| "first_fault (None # fs) = first_fault fs"
| "first_fault (Some k # fs) = Some k"

text \<open>\<open>SELECT id, evecorporationid, ... FROM corporations\<close>, scanned into structs.\<close>

definition to_Corporation :: "corporations_row \<Rightarrow> Corporation" where
  "to_Corporation r =
     \<lparr>ID = col_id r, EVECorporationID = col_evecorporationid r,
      LastKillID = col_lastkillid r, LastLossID = col_lastlossid r,
      Name = col_name r, KillComment = col_killcomment r,
      LossComment = col_losscomment r, IgnoredRegions = []\<rparr>"

definition Select_corporations ::
  "DatabaseConnection \<Rightarrow> (error + Corporation list) \<times> DatabaseConnection" where
  "Select_corporations c =
     (case driver_call c of
        (Some k, c') \<Rightarrow> (Inl (ErrDriver k), c')
      | (None, c') \<Rightarrow> (Inr (map to_Corporation (table_corporations c')), c'))"

text \<open>\<open>SELECT ... FROM corporations WHERE id=?\<close> through \<open>Get\<close>: the first row, or
  \<open>sql.ErrNoRows\<close>.\<close>

definition Get_corporation ::
  "DatabaseConnection \<Rightarrow> int \<Rightarrow> (error + Corporation) \<times> DatabaseConnection" where
  "Get_corporation c i =
     (case driver_call c of
        (Some k, c') \<Rightarrow> (Inl (ErrDriver k), c')
      | (None, c') \<Rightarrow>
          (case find (\<lambda>r. col_id r = i) (table_corporations c') of
             None \<Rightarrow> (Inl ErrNoRows, c')
           | Some r \<Rightarrow> (Inr (to_Corporation r), c')))"

text \<open>\<open>SELECT regionid FROM ignoredregions WHERE corporationID=?\<close>.\<close>

definition regions_of :: "DatabaseConnection \<Rightarrow> int \<Rightarrow> int list" where
  "regions_of c i =
     map col_regionid (filter (\<lambda>r. col_corporationID r = i) (table_ignoredregions c))"

definition Select_regionid ::
  "DatabaseConnection \<Rightarrow> int \<Rightarrow> (error + int list) \<times> DatabaseConnection" where
  "Select_regionid c i =
     (case driver_call c of
        (Some k, c') \<Rightarrow> (Inl (ErrDriver k), c')
      | (None, c') \<Rightarrow> (Inr (regions_of c' i), c'))"

text \<open>\<open>QueryRowx\<close> followed by \<open>Scan\<close> on the two reference tables: the first
  matching row, or \<open>sql.ErrNoRows\<close>.\<close>

definition QueryRow_typeName ::
  "DatabaseConnection \<Rightarrow> int \<Rightarrow> (error + string) \<times> DatabaseConnection" where
  "QueryRow_typeName c i =
     (case driver_call c of
        (Some k, c') \<Rightarrow> (Inl (ErrDriver k), c')
      | (None, c') \<Rightarrow>
          (case find (\<lambda>r. fst r = i) (table_invTypes c') of
             None \<Rightarrow> (Inl ErrNoRows, c')
           | Some r \<Rightarrow> (Inr (snd r), c')))"

definition QueryRow_regionID ::
  "DatabaseConnection \<Rightarrow> int \<Rightarrow> (error + int) \<times> DatabaseConnection" where
  "QueryRow_regionID c i =
     (case driver_call c of
        (Some k, c') \<Rightarrow> (Inl (ErrDriver k), c')
      | (None, c') \<Rightarrow>
          (case find (\<lambda>r. fst r = i) (table_mapSolarSystems c') of
             None \<Rightarrow> (Inl ErrNoRows, c')
           | Some r \<Rightarrow> (Inr (snd r), c')))"

text \<open>\<open>UPDATE corporations SET evecorporationid=?, lastkillid=?, lastlossid=?
  WHERE id=?\<close>.\<close>

definition update_row :: "int \<Rightarrow> int \<Rightarrow> int \<Rightarrow> int \<Rightarrow> corporations_row \<Rightarrow> corporations_row" where
  "update_row e k l i r =
     (if col_id r = i
      then r\<lparr>col_evecorporationid := e, col_lastkillid := k, col_lastlossid := l\<rparr>
      else r)"

definition Exec_update ::
  "DatabaseConnection \<Rightarrow> int \<Rightarrow> int \<Rightarrow> int \<Rightarrow> int \<Rightarrow> error option \<times> DatabaseConnection" where
  "Exec_update c e k l i =
     (case driver_call c of
        (Some f, c') \<Rightarrow> (Some (ErrDriver f), c')
      | (None, c') \<Rightarrow>
          (None, c'\<lparr>table_corporations := map (update_row e k l i) (table_corporations c')\<rparr>))"

text \<open>\<open>INSERT INTO corporations(evecorporationid, lastkillid, lastlossid)
  VALUES(?, ?, ?)\<close>: the new row takes the counter's value as its id and the column
  defaults elsewhere; the result handle carries the id for \<open>LastInsertId\<close>.\<close>

definition new_row :: "DatabaseConnection \<Rightarrow> int \<Rightarrow> int \<Rightarrow> int \<Rightarrow> corporations_row" where
  "new_row c e k l =
     \<lparr>col_id = auto_increment c, col_evecorporationid = e, col_lastkillid = k,
      col_lastlossid = l, col_name = default_name c,
      col_killcomment = default_killcomment c,
      col_losscomment = default_losscomment c\<rparr>"

definition Exec_insert ::
  "DatabaseConnection \<Rightarrow> int \<Rightarrow> int \<Rightarrow> int \<Rightarrow> (error + int) \<times> DatabaseConnection" where
  "Exec_insert c e k l =
     (case driver_call c of
        (Some f, c') \<Rightarrow> (Inl (ErrDriver f), c')
      | (None, c') \<Rightarrow>
          (Inr (auto_increment c'),
           c'\<lparr>table_corporations := table_corporations c' @ [new_row c' e k l],
              auto_increment := auto_increment c' + 1\<rparr>))"

definition LastInsertId ::
  "DatabaseConnection \<Rightarrow> int \<Rightarrow> (error + int) \<times> DatabaseConnection" where
  "LastInsertId c resp =
     (case driver_call c of
        (Some f, c') \<Rightarrow> (Inl (ErrDriver f), c')
      | (None, c') \<Rightarrow> (Inr resp, c'))"

subsection \<open>RawQuery\<close>

text \<open>
  \<open>interface{}\<close> values as the driver hands them out, and the result set of a query
  as \<open>database/sql\<close> has it. The driver's side (\<open>driver.Rows\<close>) has the column names,
  the rows its \<open>Next\<close> delivers, and the way the stream ends: with \<open>io.EOF\<close> (\<open>None\<close>)
  or with an error (\<open>Some e\<close>), as when the connection breaks while rows are read.
  The \<open>*sql.Rows\<close> that \<open>c.conn.Query\<close> returns is open and wraps the driver's rows,
  which a driver may have left nil.
\<close>

datatype sql_value = SqlNull | SqlInt int | SqlBytes string










subsection \<open>The typed loads\<close>

definition LoadAllIgnoredRegionsForCorporation ::
  "DatabaseConnection \<Rightarrow> int \<Rightarrow> (int list \<times> error option) \<times> DatabaseConnection" where
  "LoadAllIgnoredRegionsForCorporation c corporationID =
     (case Select_regionid c corporationID of
        (Inl err, c') \<Rightarrow> (([], Some err), c')
      | (Inr ignoredRegions, c') \<Rightarrow> ((ignoredRegions, None), c'))"

text \<open>The loop of \<open>LoadAllCorporations\<close>: the first failing secondary load ends the
  call with \<open>nil, err\<close>.\<close>

fun LoadAllCorporations_loop ::
  "DatabaseConnection \<Rightarrow> Corporation list \<Rightarrow>
   (Corporation list \<times> error option) \<times> DatabaseConnection" where
  "LoadAllCorporations_loop c [] = (([], None), c)"
| "LoadAllCorporations_loop c (corporation # rest) =
     (case LoadAllIgnoredRegionsForCorporation c (ID corporation) of
        ((ignoredRegions, Some err), c') \<Rightarrow> (([], Some err), c')
      | ((ignoredRegions, None), c') \<Rightarrow>
          (case LoadAllCorporations_loop c' rest of
             ((loaded, Some err), c'') \<Rightarrow> (([], Some err), c'')
           | ((loaded, None), c'') \<Rightarrow>
               ((corporation\<lparr>IgnoredRegions := ignoredRegions\<rparr> # loaded, None), c'')))"

definition LoadAllCorporations ::
  "DatabaseConnection \<Rightarrow> (Corporation list \<times> error option) \<times> DatabaseConnection" where
  "LoadAllCorporations c =
     (case Select_corporations c of
        (Inl err, c') \<Rightarrow> (([], Some err), c')
      | (Inr corporations, c') \<Rightarrow> LoadAllCorporations_loop c' corporations)"

definition LoadCorporation ::
  "DatabaseConnection \<Rightarrow> int \<Rightarrow> (Corporation option \<times> error option) \<times> DatabaseConnection" where
  "LoadCorporation c corporationID =
     (case Get_corporation c corporationID of
        (Inl err, c') \<Rightarrow> ((None, Some err), c')
      | (Inr corporation, c') \<Rightarrow>
          (case LoadAllIgnoredRegionsForCorporation c' (ID corporation) of
             ((ignoredRegions, Some err), c'') \<Rightarrow> ((None, Some err), c'')
           | ((ignoredRegions, None), c'') \<Rightarrow>
               ((Some (corporation\<lparr>IgnoredRegions := ignoredRegions\<rparr>), None), c'')))"

subsection \<open>The lookups\<close>

definition QueryShipName ::
  "DatabaseConnection \<Rightarrow> int \<Rightarrow> (string \<times> error option) \<times> DatabaseConnection" where
  "QueryShipName c shipTypeID =
     (case QueryRow_typeName c shipTypeID of
        (Inl err, c') \<Rightarrow> (('''', Some err), c')
      | (Inr shipName, c') \<Rightarrow> ((shipName, None), c'))"

definition QueryRegionID ::
  "DatabaseConnection \<Rightarrow> int \<Rightarrow> (int \<times> error option) \<times> DatabaseConnection" where
  "QueryRegionID c solarSystemID =
     (case QueryRow_regionID c solarSystemID of
        (Inl err, c') \<Rightarrow> ((- 1, Some err), c')
      | (Inr regionID, c') \<Rightarrow> ((regionID, None), c'))"

subsection \<open>SaveCorporation\<close>

text \<open>The argument is a pointer into the caller's memory; reading \<open>corporation.ID\<close>
  through a pointer with no struct behind it (nil) panics.\<close>

definition SaveCorporation ::
  "DatabaseConnection \<Rightarrow> heap \<Rightarrow> ref \<Rightarrow>
   ((ref option \<times> error option) \<times> heap \<times> DatabaseConnection) go" where
  "SaveCorporation c h corporation =
     (case h corporation of
        None \<Rightarrow> Panicked
      | Some corp \<Rightarrow>
          if ID corp > 0 then
            (case Exec_update c (EVECorporationID corp) (LastKillID corp)
                    (LastLossID corp) (ID corp) of
               (Some err, c') \<Rightarrow> Returned ((None, Some err), h, c')
             | (None, c') \<Rightarrow> Returned ((Some corporation, None), h, c'))
          else
            (case Exec_insert c (EVECorporationID corp) (LastKillID corp)
                    (LastLossID corp) of
               (Inl err, c') \<Rightarrow> Returned ((None, Some err), h, c')
             | (Inr resp, c') \<Rightarrow>
                 (case LastInsertId c' resp of
                    (Inl err, c'') \<Rightarrow> Returned ((None, Some err), h, c'')
                  | (Inr lastInsertedID, c'') \<Rightarrow>
                      Returned ((Some corporation, None),
                                h(corporation \<mapsto> corp\<lparr>ID := lastInsertedID\<rparr>), c''))))"

subsection \<open>Notions the properties are stated with\<close>

text \<open>The ids handed out so far lie below the counter of the auto-increment column:
  the next INSERT gets an id no row has yet.\<close>

definition ids_below_counter :: "DatabaseConnection \<Rightarrow> bool" where
  "ids_below_counter c = (\<forall>r\<in>set (table_corporations c). col_id r < auto_increment c)"










subsection \<open>A small database for the concrete checks\<close>

definition new_corp :: Corporation where
  "new_corp =
     \<lparr>ID = 0, EVECorporationID = 98765, LastKillID = 11, LastLossID = 12,
      Name = ''N'', KillComment = '''', LossComment = '''', IgnoredRegions = []\<rparr>"

definition stored_corp :: Corporation where
  "stored_corp =
     \<lparr>ID = 2, EVECorporationID = 4711, LastKillID = 42, LastLossID = 9,
      Name = ''renamed'', KillComment = ''x'', LossComment = ''y'', IgnoredRegions = [5]\<rparr>"

definition negative_corp :: Corporation where
  "negative_corp =
     \<lparr>ID = - 5, EVECorporationID = 1, LastKillID = 2, LastLossID = 3,
      Name = '''', KillComment = '''', LossComment = '''', IgnoredRegions = []\<rparr>"

definition example_connection :: DatabaseConnection where
  "example_connection =
     \<lparr>table_corporations =
        [\<lparr>col_id = 1, col_evecorporationid = 98765, col_lastkillid = 0, col_lastlossid = 0,
          col_name = ''A'', col_killcomment = ''k'', col_losscomment = ''l''\<rparr>,
         \<lparr>col_id = 2, col_evecorporationid = 4711, col_lastkillid = 7, col_lastlossid = 9,
          col_name = ''B'', col_killcomment = ''kk'', col_losscomment = ''ll''\<rparr>],
      table_ignoredregions =
        [\<lparr>col_corporationID = 1, col_regionid = 10000002\<rparr>,
         \<lparr>col_corporationID = 1, col_regionid = 10000003\<rparr>],
      table_invTypes = [(587, ''Rifter'')],
      table_mapSolarSystems = [(30000142, 10000002)],
      auto_increment = 3,
      default_name = '''', default_killcomment = '''', default_losscomment = '''',
      faults = []\<rparr>"

section \<open>Properties\<close>

subsection \<open>Facts about the driver calls\<close>

lemma driver_call_simps [simp]:
  "fst (driver_call c) = next_fault c"
  "table_corporations (snd (driver_call c)) = table_corporations c"
  "table_ignoredregions (snd (driver_call c)) = table_ignoredregions c"
  "table_invTypes (snd (driver_call c)) = table_invTypes c"
  "table_mapSolarSystems (snd (driver_call c)) = table_mapSolarSystems c"
  "auto_increment (snd (driver_call c)) = auto_increment c"
  "faults (snd (driver_call c)) = tl (faults c)"
  by (simp_all add: driver_call_def)

lemma regions_of_cong:
  "table_ignoredregions c' = table_ignoredregions c \<Longrightarrow> regions_of c' i = regions_of c i"
  by (simp add: regions_of_def)

lemma regions_of_empty:
  "(\<forall>r\<in>set (table_ignoredregions c). col_corporationID r \<noteq> i) \<Longrightarrow> regions_of c i = []"
  by (simp add: regions_of_def filter_empty_conv)

lemma LoadAllIgnoredRegionsForCorporation_eq:
  "LoadAllIgnoredRegionsForCorporation c i =
     (case next_fault c of
        Some k \<Rightarrow> (([], Some (ErrDriver k)), c\<lparr>faults := tl (faults c)\<rparr>)
      | None \<Rightarrow> ((regions_of c i, None), c\<lparr>faults := tl (faults c)\<rparr>))"
  by (simp add: LoadAllIgnoredRegionsForCorporation_def Select_regionid_def driver_call_def
      regions_of_def split: option.splits)

subsection \<open>Lookups and loads that find no row\<close>

text \<open>
  C3. When no row of \<open>mapSolarSystems\<close> has the solar-system ID, \<open>QueryRegionID\<close>
  returns the sentinel \<open>-1\<close> together with a non-nil error: \<open>sql.ErrNoRows\<close> when the
  statement executes, the driver's error when it does not.
\<close>

theorem QueryRegionID_no_row:
  assumes "\<forall>r\<in>set (table_mapSolarSystems c). fst r \<noteq> solarSystemID"
  shows "fst (QueryRegionID c solarSystemID) =
           (- 1, Some (case next_fault c of None \<Rightarrow> ErrNoRows | Some k \<Rightarrow> ErrDriver k))"
proof -
  from assms have "find (\<lambda>r. fst r = solarSystemID) (table_mapSolarSystems c) = None"
    by (auto simp: find_None_iff)
  then show ?thesis
    by (simp add: QueryRegionID_def QueryRow_regionID_def driver_call_def split: option.splits)
qed

theorem QueryRegionID_no_row_witness:
  "list_all (\<lambda>r. fst r \<noteq> 5) (table_mapSolarSystems example_connection) \<and>
   fst (QueryRegionID example_connection 5) = (- 1, Some ErrNoRows)"
  using QueryRegionID_no_row [of example_connection 5]
  by (simp add: example_connection_def next_fault_def)

text \<open>
  C7. When no row of \<open>ignoredregions\<close> belongs to the organization,
  \<open>LoadAllIgnoredRegionsForCorporation\<close> returns an empty collection, and it returns
  no error whenever the select itself executes: having no rows is never an error.
\<close>

theorem LoadAllIgnoredRegionsForCorporation_no_rows:
  assumes "\<forall>r\<in>set (table_ignoredregions c). col_corporationID r \<noteq> corporationID"
  shows "fst (fst (LoadAllIgnoredRegionsForCorporation c corporationID)) = [] \<and>
         (snd (fst (LoadAllIgnoredRegionsForCorporation c corporationID)) = None
            \<longleftrightarrow> next_fault c = None)"
  using regions_of_empty [OF assms]
  by (simp add: LoadAllIgnoredRegionsForCorporation_eq split: option.splits)

theorem LoadAllIgnoredRegionsForCorporation_no_rows_witness:
  "list_all (\<lambda>r. col_corporationID r \<noteq> 2) (table_ignoredregions example_connection) \<and>
   next_fault example_connection = None \<and>
   fst (LoadAllIgnoredRegionsForCorporation example_connection 2) = ([], None)"
  using LoadAllIgnoredRegionsForCorporation_no_rows [of example_connection 2]
  by (simp add: example_connection_def next_fault_def prod_eq_iff)

text \<open>
  C6. When no row of \<open>corporations\<close> has the internal ID, \<open>LoadCorporation\<close> returns
  no entity and an error, which is the underlying \<open>sql.ErrNoRows\<close> when the statement
  executes (and the driver's error when it does not).
\<close>

theorem LoadCorporation_no_row:
  assumes "\<forall>r\<in>set (table_corporations c). col_id r \<noteq> corporationID"
  shows "fst (LoadCorporation c corporationID) =
           (None, Some (case next_fault c of None \<Rightarrow> ErrNoRows | Some k \<Rightarrow> ErrDriver k))"
proof -
  from assms have "find (\<lambda>r. col_id r = corporationID) (table_corporations c) = None"
    by (auto simp: find_None_iff)
  then show ?thesis
    by (simp add: LoadCorporation_def Get_corporation_def driver_call_def split: option.splits)
qed

theorem LoadCorporation_no_row_witness:
  "list_all (\<lambda>r. col_id r \<noteq> 3) (table_corporations example_connection) \<and>
   fst (LoadCorporation example_connection 3) = (None, Some ErrNoRows)"
  using LoadCorporation_no_row [of example_connection 3]
  by (simp add: example_connection_def next_fault_def)

subsection \<open>Loads with their ignored regions\<close>

lemma first_fault_None_iff: "first_fault fs = None \<longleftrightarrow> (\<forall>f\<in>set fs. f = None)"
  by (induction fs rule: first_fault.induct) auto

lemma first_fault_take_Suc:
  "first_fault (take (Suc n) (faults c)) =
     (case next_fault c of Some k \<Rightarrow> Some k | None \<Rightarrow> first_fault (take n (tl (faults c))))"
  by (cases "faults c") (auto simp: next_fault_def split: option.splits)

lemma regions_of_faults [simp]: "regions_of (c\<lparr>faults := fs\<rparr>) i = regions_of c i"
  by (simp add: regions_of_def)

text \<open>The loop either stops at the first secondary load that fails, or fills every
  organization it was given.\<close>

lemma LoadAllCorporations_loop_fst:
  "fst (LoadAllCorporations_loop c xs) =
     (case first_fault (take (length xs) (faults c)) of
        Some k \<Rightarrow> ([], Some (ErrDriver k))
      | None \<Rightarrow> (map (\<lambda>x. x\<lparr>IgnoredRegions := regions_of c (ID x)\<rparr>) xs, None))"
proof (induction xs arbitrary: c)
  case Nil
  show ?case by simp
next
  case (Cons x xs)
  show ?case
  proof (cases "next_fault c")
    case (Some k)
    then show ?thesis
      by (simp add: LoadAllIgnoredRegionsForCorporation_eq first_fault_take_Suc
          del: take_Suc_Cons)
  next
    case None
    let ?c' = "c\<lparr>faults := tl (faults c)\<rparr>"
    have ih: "fst (LoadAllCorporations_loop ?c' xs) =
       (case first_fault (take (length xs) (tl (faults c))) of
          Some k \<Rightarrow> ([], Some (ErrDriver k))
        | None \<Rightarrow> (map (\<lambda>x. x\<lparr>IgnoredRegions := regions_of c (ID x)\<rparr>) xs, None))"
      using Cons.IH [of ?c'] by (simp cong: option.case_cong)
    obtain loaded e c'' where r: "LoadAllCorporations_loop ?c' xs = ((loaded, e), c'')"
      by (metis surj_pair)
    from ih r None show ?thesis
      by (cases e; cases "first_fault (take (length xs) (tl (faults c)))")
         (simp_all add: LoadAllIgnoredRegionsForCorporation_eq first_fault_take_Suc)
  qed
qed

lemma LoadAllCorporations_fst:
  "fst (LoadAllCorporations c) =
     (case first_fault (take (Suc (length (table_corporations c))) (faults c)) of
        Some k \<Rightarrow> ([], Some (ErrDriver k))
      | None \<Rightarrow>
          (map (\<lambda>r. (to_Corporation r)\<lparr>IgnoredRegions := regions_of c (col_id r)\<rparr>)
             (table_corporations c), None))"
proof (cases "next_fault c")
  case (Some k)
  then show ?thesis
    by (simp add: LoadAllCorporations_def Select_corporations_def driver_call_def
        first_fault_take_Suc)
next
  case None
  then show ?thesis
    by (simp add: LoadAllCorporations_def Select_corporations_def driver_call_def
        first_fault_take_Suc LoadAllCorporations_loop_fst comp_def to_Corporation_def
        cong: option.case_cong)
qed

lemma find_Some_id: "find (\<lambda>r. col_id r = i) rs = Some r \<Longrightarrow> col_id r = i"
  by (auto simp: find_Some_iff)

lemma LoadCorporation_fst:
  "fst (LoadCorporation c i) =
     (case next_fault c of
        Some k \<Rightarrow> (None, Some (ErrDriver k))
      | None \<Rightarrow>
          (case find (\<lambda>r. col_id r = i) (table_corporations c) of
             None \<Rightarrow> (None, Some ErrNoRows)
           | Some r \<Rightarrow>
               (case next_fault (c\<lparr>faults := tl (faults c)\<rparr>) of
                  Some k \<Rightarrow> (None, Some (ErrDriver k))
                | None \<Rightarrow>
                    (Some ((to_Corporation r)\<lparr>IgnoredRegions := regions_of c i\<rparr>), None))))"
  by (auto simp add: LoadCorporation_def Get_corporation_def driver_call_def
      LoadAllIgnoredRegionsForCorporation_eq to_Corporation_def dest: find_Some_id
      split: option.splits)

text \<open>
  C2. \<open>LoadAllCorporations\<close> succeeds exactly when the primary select and every
  secondary load execute; it then returns one organization per row, each with
  \<open>IgnoredRegions\<close> equal to the dependent rows of its ID, and when it fails it returns
  the error with no result. \<open>LoadCorporation\<close> likewise: an organization it returns
  carries exactly the dependent rows of its ID, and when one of its two statements
  fails it returns an error and no entity.
\<close>

theorem loads_populate_IgnoredRegions:
  "(snd (fst (LoadAllCorporations c)) = None \<longleftrightarrow>
      executes (Suc (length (table_corporations c))) c) \<and>
   (snd (fst (LoadAllCorporations c)) = None \<longrightarrow>
      map ID (fst (fst (LoadAllCorporations c))) = map col_id (table_corporations c) \<and>
      (\<forall>x\<in>set (fst (fst (LoadAllCorporations c))). IgnoredRegions x = regions_of c (ID x))) \<and>
   (snd (fst (LoadAllCorporations c)) \<noteq> None \<longrightarrow> fst (fst (LoadAllCorporations c)) = []) \<and>
   (fst (LoadCorporation c i) = (Some x, None) \<longrightarrow>
      ID x = i \<and> IgnoredRegions x = regions_of c i) \<and>
   (\<not> executes 2 c \<longrightarrow>
      fst (fst (LoadCorporation c i)) = None \<and> snd (fst (LoadCorporation c i)) \<noteq> None)"
proof (intro conjI impI)
  show "snd (fst (LoadAllCorporations c)) = None \<longleftrightarrow>
      executes (Suc (length (table_corporations c))) c"
    by (simp add: LoadAllCorporations_fst executes_def first_fault_None_iff [symmetric]
        del: take_Suc_Cons first_fault.simps split: option.splits)
next
  assume "snd (fst (LoadAllCorporations c)) = None"
  then have *: "fst (fst (LoadAllCorporations c)) =
      map (\<lambda>r. (to_Corporation r)\<lparr>IgnoredRegions := regions_of c (col_id r)\<rparr>)
        (table_corporations c)"
    by (simp add: LoadAllCorporations_fst split: option.splits)
  show "map ID (fst (fst (LoadAllCorporations c))) = map col_id (table_corporations c)"
    by (simp add: * to_Corporation_def comp_def)
  show "\<forall>x\<in>set (fst (fst (LoadAllCorporations c))). IgnoredRegions x = regions_of c (ID x)"
    by (auto simp: * to_Corporation_def)
next
  assume "snd (fst (LoadAllCorporations c)) \<noteq> None"
  then show "fst (fst (LoadAllCorporations c)) = []"
    by (simp add: LoadAllCorporations_fst split: option.splits)
next
  assume "fst (LoadCorporation c i) = (Some x, None)"
  then show "ID x = i" "IgnoredRegions x = regions_of c i"
    by (auto simp: LoadCorporation_fst to_Corporation_def dest: find_Some_id
        split: option.splits)
next
  assume "\<not> executes 2 c"
  then have "next_fault c \<noteq> None \<or> next_fault (c\<lparr>faults := tl (faults c)\<rparr>) \<noteq> None"
    by (cases "faults c"; cases "tl (faults c)")
       (auto simp: executes_def next_fault_def numeral_2_eq_2)
  then show "fst (fst (LoadCorporation c i)) = None"
    "snd (fst (LoadCorporation c i)) \<noteq> None"
    by (auto simp: LoadCorporation_fst split: option.splits)
qed

theorem loads_populate_IgnoredRegions_witness:
  "executes 3 example_connection \<and>
   snd (fst (LoadAllCorporations example_connection)) = None \<and>
   map IgnoredRegions (fst (fst (LoadAllCorporations example_connection))) =
     [[10000002, 10000003], []] \<and>
   fst (LoadAllCorporations (example_connection\<lparr>faults := [None, None, Some 3]\<rparr>)) =
     ([], Some (ErrDriver 3)) \<and>
   map_option IgnoredRegions (fst (fst (LoadCorporation example_connection 1))) =
     Some [10000002, 10000003] \<and>
   fst (LoadCorporation (example_connection\<lparr>faults := [None, Some 3]\<rparr>) 1) =
     (None, Some (ErrDriver 3))"
  using loads_populate_IgnoredRegions [of example_connection 1
      "the (fst (fst (LoadCorporation example_connection 1)))"]
    loads_populate_IgnoredRegions [of "example_connection\<lparr>faults := [None, None, Some 3]\<rparr>" 1
      "the (fst (fst (LoadCorporation example_connection 1)))"]
    loads_populate_IgnoredRegions [of "example_connection\<lparr>faults := [None, Some 3]\<rparr>" 1
      "the (fst (fst (LoadCorporation example_connection 1)))"]
  by (simp add: example_connection_def executes_def LoadAllCorporations_def
      Select_corporations_def driver_call_def next_fault_def LoadCorporation_def
      Get_corporation_def LoadAllIgnoredRegionsForCorporation_def Select_regionid_def
      regions_of_def to_Corporation_def)

subsection \<open>SaveCorporation: which statement runs, and what it leaves behind\<close>

lemma executes_next_fault:
  assumes "executes n c" and "i < n" and "faults c' = drop i (faults c)"
  shows "next_fault c' = None"
proof (cases "drop i (faults c)")
  case Nil
  with assms(3) show ?thesis by (simp add: next_fault_def)
next
  case (Cons f fs)
  then have len: "i < length (faults c)" by (cases "i < length (faults c)") auto
  with Cons have "f = faults c ! i"
    by (metis nth_via_drop)
  with len \<open>i < n\<close> have "f \<in> set (take n (faults c))"
    by (auto simp: in_set_conv_nth intro!: exI [of _ i])
  with assms(1) have "f = None" by (simp add: executes_def)
  with Cons assms(3) show ?thesis by (simp add: next_fault_def)
qed

lemma executes_two:
  assumes "executes 2 c"
  shows "next_fault c = None" and "next_fault (c\<lparr>faults := tl (faults c)\<rparr>) = None"
  using assms executes_next_fault [of 2 c 0 c]
    executes_next_fault [of 2 c 1 "c\<lparr>faults := tl (faults c)\<rparr>"]
  by (simp_all add: drop_Suc)

lemma new_row_faults [simp]: "new_row (c\<lparr>faults := fs\<rparr>) e k l = new_row c e k l"
  by (simp add: new_row_def)

lemma SaveCorporation_update_eq:
  assumes "h p = Some corp" and "0 < ID corp"
  shows "SaveCorporation c h p =
     (case next_fault c of
        Some f \<Rightarrow> Returned ((None, Some (ErrDriver f)), h, c\<lparr>faults := tl (faults c)\<rparr>)
      | None \<Rightarrow>
          Returned ((Some p, None), h,
            c\<lparr>faults := tl (faults c),
              table_corporations :=
                map (update_row (EVECorporationID corp) (LastKillID corp) (LastLossID corp)
                       (ID corp)) (table_corporations c)\<rparr>))"
  using assms
  by (simp add: SaveCorporation_def Exec_update_def driver_call_def split: option.splits)

lemma SaveCorporation_insert_eq:
  assumes "h p = Some corp" and "ID corp \<le> 0"
  shows "SaveCorporation c h p =
     (case next_fault c of
        Some f \<Rightarrow> Returned ((None, Some (ErrDriver f)), h, c\<lparr>faults := tl (faults c)\<rparr>)
      | None \<Rightarrow>
          (case next_fault (c\<lparr>faults := tl (faults c)\<rparr>) of
             Some f \<Rightarrow>
               Returned ((None, Some (ErrDriver f)), h,
                 c\<lparr>faults := tl (tl (faults c)),
                   table_corporations := table_corporations c @
                     [new_row c (EVECorporationID corp) (LastKillID corp) (LastLossID corp)],
                   auto_increment := auto_increment c + 1\<rparr>)
           | None \<Rightarrow>
               Returned ((Some p, None), h(p \<mapsto> corp\<lparr>ID := auto_increment c\<rparr>),
                 c\<lparr>faults := tl (tl (faults c)),
                   table_corporations := table_corporations c @
                     [new_row c (EVECorporationID corp) (LastKillID corp) (LastLossID corp)],
                   auto_increment := auto_increment c + 1\<rparr>)))"
  using assms
  by (simp add: SaveCorporation_def Exec_insert_def LastInsertId_def driver_call_def
      next_fault_def split: option.splits)

text \<open>
  C1. \<open>SaveCorporation\<close> dispatches on the entity's ID. With \<open>ID > 0\<close> and the
  statement executing, it updates \<open>evecorporationid\<close>, \<open>lastkillid\<close> and \<open>lastlossid\<close>
  of the rows with that id and returns the entity it was given. With the ID unset
  (\<open>0\<close>) and both driver calls executing, it inserts a row with the three values, takes
  the id the storage assigned, writes it into the entity's \<open>ID\<close> field and returns
  that entity.
\<close>

theorem SaveCorporation_dispatch:
  assumes "h p = Some corp"
  shows "(0 < ID corp \<and> executes 1 c \<longrightarrow>
            SaveCorporation c h p =
              Returned ((Some p, None), h,
                c\<lparr>faults := tl (faults c),
                  table_corporations :=
                    map (\<lambda>r. if col_id r = ID corp
                              then r\<lparr>col_evecorporationid := EVECorporationID corp,
                                     col_lastkillid := LastKillID corp,
                                     col_lastlossid := LastLossID corp\<rparr>
                              else r) (table_corporations c)\<rparr>)) \<and>
         (ID corp = 0 \<and> executes 2 c \<longrightarrow>
            SaveCorporation c h p =
              Returned ((Some p, None), h(p \<mapsto> corp\<lparr>ID := auto_increment c\<rparr>),
                c\<lparr>faults := tl (tl (faults c)),
                  table_corporations := table_corporations c @
                    [\<lparr>col_id = auto_increment c,
                      col_evecorporationid = EVECorporationID corp,
                      col_lastkillid = LastKillID corp,
                      col_lastlossid = LastLossID corp,
                      col_name = default_name c,
                      col_killcomment = default_killcomment c,
                      col_losscomment = default_losscomment c\<rparr>],
                  auto_increment := auto_increment c + 1\<rparr>))"
proof (intro conjI impI)
  assume a: "0 < ID corp \<and> executes 1 c"
  then have "next_fault c = None"
    using executes_next_fault [of 1 c 0 c] by simp
  with a assms show "SaveCorporation c h p =
              Returned ((Some p, None), h,
                c\<lparr>faults := tl (faults c),
                  table_corporations :=
                    map (\<lambda>r. if col_id r = ID corp
                              then r\<lparr>col_evecorporationid := EVECorporationID corp,
                                     col_lastkillid := LastKillID corp,
                                     col_lastlossid := LastLossID corp\<rparr>
                              else r) (table_corporations c)\<rparr>)"
    by (simp add: SaveCorporation_update_eq update_row_def [abs_def])
next
  assume a: "ID corp = 0 \<and> executes 2 c"
  with assms executes_two [of c] show "SaveCorporation c h p =
              Returned ((Some p, None), h(p \<mapsto> corp\<lparr>ID := auto_increment c\<rparr>),
                c\<lparr>faults := tl (tl (faults c)),
                  table_corporations := table_corporations c @
                    [\<lparr>col_id = auto_increment c,
                      col_evecorporationid = EVECorporationID corp,
                      col_lastkillid = LastKillID corp,
                      col_lastlossid = LastLossID corp,
                      col_name = default_name c,
                      col_killcomment = default_killcomment c,
                      col_losscomment = default_losscomment c\<rparr>],
                  auto_increment := auto_increment c + 1\<rparr>)"
    by (simp add: SaveCorporation_insert_eq new_row_def)
qed

theorem SaveCorporation_dispatch_witness:
  "0 < ID stored_corp \<and> executes 1 example_connection \<and>
   SaveCorporation example_connection [0 \<mapsto> stored_corp] 0 =
     Returned ((Some 0, None), [0 \<mapsto> stored_corp],
       example_connection\<lparr>table_corporations :=
         [\<lparr>col_id = 1, col_evecorporationid = 98765, col_lastkillid = 0, col_lastlossid = 0,
           col_name = ''A'', col_killcomment = ''k'', col_losscomment = ''l''\<rparr>,
          \<lparr>col_id = 2, col_evecorporationid = 4711, col_lastkillid = 42, col_lastlossid = 9,
           col_name = ''B'', col_killcomment = ''kk'', col_losscomment = ''ll''\<rparr>]\<rparr>) \<and>
   ID new_corp = 0 \<and> executes 2 example_connection \<and>
   SaveCorporation example_connection [0 \<mapsto> new_corp] 0 =
     Returned ((Some 0, None), [0 \<mapsto> new_corp\<lparr>ID := 3\<rparr>],
       example_connection\<lparr>table_corporations := table_corporations example_connection @
         [\<lparr>col_id = 3, col_evecorporationid = 98765, col_lastkillid = 11, col_lastlossid = 12,
           col_name = '''', col_killcomment = '''', col_losscomment = ''''\<rparr>],
         auto_increment := 4\<rparr>)"
  using SaveCorporation_dispatch [of "[0 \<mapsto> stored_corp]" 0 stored_corp example_connection]
    SaveCorporation_dispatch [of "[0 \<mapsto> new_corp]" 0 new_corp example_connection]
  by (simp add: example_connection_def stored_corp_def new_corp_def executes_def)

text \<open>
  C9. Whenever the driver calls execute, \<open>SaveCorporation\<close> runs the INSERT (the table
  gains the new row) exactly when the entity's ID is not positive, negative IDs
  included, and runs the UPDATE exactly when the ID is strictly positive.
\<close>

theorem SaveCorporation_branch_by_sign:
  assumes "h p = Some corp" and "executes 2 c"
    and "SaveCorporation c h p = Returned (res, h', c')"
  shows "(ID corp \<le> 0 \<longleftrightarrow>
            table_corporations c' = table_corporations c @
              [new_row c (EVECorporationID corp) (LastKillID corp) (LastLossID corp)]) \<and>
         (0 < ID corp \<longleftrightarrow>
            table_corporations c' =
              map (update_row (EVECorporationID corp) (LastKillID corp) (LastLossID corp)
                     (ID corp)) (table_corporations c))"
proof -
  let ?ins = "table_corporations c @
      [new_row c (EVECorporationID corp) (LastKillID corp) (LastLossID corp)]"
  let ?upd = "map (update_row (EVECorporationID corp) (LastKillID corp) (LastLossID corp)
      (ID corp)) (table_corporations c)"
  have "length ?upd \<noteq> length ?ins" by simp
  then have differ: "?upd \<noteq> ?ins" by metis
  show ?thesis
  proof (cases "0 < ID corp")
    case True
    with assms executes_two [OF assms(2)] have "table_corporations c' = ?upd"
      by (auto simp: SaveCorporation_update_eq)
    with True differ show ?thesis by simp
  next
    case False
    with assms executes_two [OF assms(2)] have "table_corporations c' = ?ins"
      by (auto simp: SaveCorporation_insert_eq)
    with False differ show ?thesis by auto
  qed
qed

theorem SaveCorporation_branch_by_sign_witness:
  "[0 \<mapsto> negative_corp] 0 = Some negative_corp \<and> executes 2 example_connection \<and>
   ID negative_corp < 0 \<and>
   SaveCorporation example_connection [0 \<mapsto> negative_corp] 0 =
     Returned ((Some 0, None), [0 \<mapsto> negative_corp\<lparr>ID := 3\<rparr>],
       example_connection\<lparr>table_corporations := table_corporations example_connection @
         [new_row example_connection 1 2 3], auto_increment := 4\<rparr>) \<and>
   table_corporations example_connection @ [new_row example_connection 1 2 3] \<noteq>
     map (update_row 1 2 3 (- 5)) (table_corporations example_connection)"
  using SaveCorporation_branch_by_sign [of "[0 \<mapsto> negative_corp]" 0 negative_corp
      example_connection "(Some 0, None)" "[0 \<mapsto> negative_corp\<lparr>ID := 3\<rparr>]"
      "example_connection\<lparr>table_corporations := table_corporations example_connection @
         [new_row example_connection 1 2 3], auto_increment := 4\<rparr>"]
  by (simp add: example_connection_def negative_corp_def executes_def SaveCorporation_def
      Exec_insert_def LastInsertId_def driver_call_def next_fault_def new_row_def)

text \<open>
  C10. When a step of \<open>SaveCorporation\<close> fails (the UPDATE, the INSERT, or
  \<open>LastInsertId\<close> after an INSERT that went through), it returns a nil entity with
  that error and the caller's memory is as before the call, so the entity's ID field
  is unchanged; and every return that carries an error is of that shape.
\<close>

theorem SaveCorporation_failure:
  assumes "h p = Some corp"
  shows "(0 < ID corp \<and> faults c = Some k # fs \<longrightarrow>
            SaveCorporation c h p =
              Returned ((None, Some (ErrDriver k)), h, c\<lparr>faults := fs\<rparr>)) \<and>
         (ID corp \<le> 0 \<and> faults c = Some k # fs \<longrightarrow>
            SaveCorporation c h p =
              Returned ((None, Some (ErrDriver k)), h, c\<lparr>faults := fs\<rparr>)) \<and>
         (ID corp \<le> 0 \<and> faults c = None # Some k # fs \<longrightarrow>
            SaveCorporation c h p =
              Returned ((None, Some (ErrDriver k)), h,
                c\<lparr>faults := fs,
                  table_corporations := table_corporations c @
                    [new_row c (EVECorporationID corp) (LastKillID corp) (LastLossID corp)],
                  auto_increment := auto_increment c + 1\<rparr>)) \<and>
         (SaveCorporation c h p = Returned ((res, Some err), h', c') \<longrightarrow>
            res = None \<and> h' = h \<and> map_option ID (h' p) = Some (ID corp))"
proof (intro conjI impI)
  assume "0 < ID corp \<and> faults c = Some k # fs"
  with assms show "SaveCorporation c h p =
      Returned ((None, Some (ErrDriver k)), h, c\<lparr>faults := fs\<rparr>)"
    by (simp add: SaveCorporation_update_eq next_fault_def)
next
  assume "ID corp \<le> 0 \<and> faults c = Some k # fs"
  with assms show "SaveCorporation c h p =
      Returned ((None, Some (ErrDriver k)), h, c\<lparr>faults := fs\<rparr>)"
    by (simp add: SaveCorporation_insert_eq next_fault_def)
next
  assume "ID corp \<le> 0 \<and> faults c = None # Some k # fs"
  with assms show "SaveCorporation c h p =
      Returned ((None, Some (ErrDriver k)), h,
        c\<lparr>faults := fs,
          table_corporations := table_corporations c @
            [new_row c (EVECorporationID corp) (LastKillID corp) (LastLossID corp)],
          auto_increment := auto_increment c + 1\<rparr>)"
    by (simp add: SaveCorporation_insert_eq next_fault_def)
next
  assume r: "SaveCorporation c h p = Returned ((res, Some err), h', c')"
  have "res = None \<and> h' = h"
  proof (cases "0 < ID corp")
    case True
    with r assms show ?thesis
      by (auto simp: SaveCorporation_update_eq split: option.splits)
  next
    case False
    with r assms show ?thesis
      by (auto simp: SaveCorporation_insert_eq split: option.splits)
  qed
  with assms show "res = None" "h' = h" "map_option ID (h' p) = Some (ID corp)"
    by simp_all
qed

theorem SaveCorporation_failure_witness:
  "SaveCorporation (example_connection\<lparr>faults := [Some 7]\<rparr>) [0 \<mapsto> stored_corp] 0 =
     Returned ((None, Some (ErrDriver 7)), [0 \<mapsto> stored_corp], example_connection) \<and>
   SaveCorporation (example_connection\<lparr>faults := [Some 8]\<rparr>) [0 \<mapsto> new_corp] 0 =
     Returned ((None, Some (ErrDriver 8)), [0 \<mapsto> new_corp], example_connection) \<and>
   SaveCorporation (example_connection\<lparr>faults := [None, Some 9]\<rparr>) [0 \<mapsto> new_corp] 0 =
     Returned ((None, Some (ErrDriver 9)), [0 \<mapsto> new_corp],
       example_connection\<lparr>table_corporations := table_corporations example_connection @
         [new_row example_connection 98765 11 12], auto_increment := 4\<rparr>)"
  using SaveCorporation_failure [of "[0 \<mapsto> stored_corp]" 0 stored_corp
      "example_connection\<lparr>faults := [Some 7]\<rparr>" 7 "[]"]
    SaveCorporation_failure [of "[0 \<mapsto> new_corp]" 0 new_corp
      "example_connection\<lparr>faults := [Some 8]\<rparr>" 8 "[]"]
    SaveCorporation_failure [of "[0 \<mapsto> new_corp]" 0 new_corp
      "example_connection\<lparr>faults := [None, Some 9]\<rparr>" 9 "[]"]
  by (simp add: example_connection_def stored_corp_def new_corp_def new_row_def)

text \<open>
  C8. With \<open>ID > 0\<close>, whatever \<open>SaveCorporation\<close> returns, the persisted state differs
  from the one before at most in \<open>evecorporationid\<close>, \<open>lastkillid\<close> and \<open>lastlossid\<close> of
  the rows with that id: the ids, names and both comments of all rows, every other
  row, the ignored-regions rows and all the rest are as before.
\<close>

theorem SaveCorporation_update_frame:
  assumes "h p = Some corp" and "0 < ID corp"
    and "SaveCorporation c h p = Returned (res, h', c')"
  shows "table_ignoredregions c' = table_ignoredregions c \<and>
         map col_id (table_corporations c') = map col_id (table_corporations c) \<and>
         map col_name (table_corporations c') = map col_name (table_corporations c) \<and>
         map col_killcomment (table_corporations c') =
           map col_killcomment (table_corporations c) \<and>
         map col_losscomment (table_corporations c') =
           map col_losscomment (table_corporations c) \<and>
         filter (\<lambda>r. col_id r \<noteq> ID corp) (table_corporations c') =
           filter (\<lambda>r. col_id r \<noteq> ID corp) (table_corporations c) \<and>
         table_invTypes c' = table_invTypes c \<and>
         table_mapSolarSystems c' = table_mapSolarSystems c \<and>
         auto_increment c' = auto_increment c \<and>
         h' = h"
proof -
  let ?u = "update_row (EVECorporationID corp) (LastKillID corp) (LastLossID corp) (ID corp)"
  have u: "col_id (?u r) = col_id r" "col_name (?u r) = col_name r"
    "col_killcomment (?u r) = col_killcomment r" "col_losscomment (?u r) = col_losscomment r"
    for r
    by (simp_all add: update_row_def)
  have f: "filter (\<lambda>r. col_id r \<noteq> ID corp) (map ?u rs) = filter (\<lambda>r. col_id r \<noteq> ID corp) rs"
    for rs
    by (induction rs) (simp_all add: update_row_def)
  from assms have "c' = c\<lparr>faults := tl (faults c)\<rparr> \<or>
      c' = c\<lparr>faults := tl (faults c),
             table_corporations := map ?u (table_corporations c)\<rparr>" and "h' = h"
    by (auto simp: SaveCorporation_update_eq split: option.splits)
  then show ?thesis
    by (auto simp: u f comp_def)
qed

theorem SaveCorporation_update_frame_witness:
  "[0 \<mapsto> stored_corp] 0 = Some stored_corp \<and> 0 < ID stored_corp \<and>
   SaveCorporation example_connection [0 \<mapsto> stored_corp] 0 =
     Returned ((Some 0, None), [0 \<mapsto> stored_corp],
       example_connection\<lparr>table_corporations :=
         map (update_row 4711 42 9 2) (table_corporations example_connection)\<rparr>) \<and>
   map col_name (map (update_row 4711 42 9 2) (table_corporations example_connection)) =
     [''A'', ''B''] \<and>
   map col_lastkillid (map (update_row 4711 42 9 2) (table_corporations example_connection)) =
     [0, 42]"
  using SaveCorporation_update_frame [of "[0 \<mapsto> stored_corp]" 0 stored_corp
      example_connection "(Some 0, None)" "[0 \<mapsto> stored_corp]"
      "example_connection\<lparr>table_corporations :=
         map (update_row 4711 42 9 2) (table_corporations example_connection)\<rparr>"]
  by (simp add: example_connection_def stored_corp_def SaveCorporation_def Exec_update_def
      driver_call_def next_fault_def update_row_def)

subsection \<open>Saving a new entity and loading it back\<close>

lemma find_append_new:
  "(\<forall>r\<in>set rs. \<not> P r) \<Longrightarrow> P x \<Longrightarrow> find P (rs @ [x]) = Some x"
  by (induction rs) simp_all

lemma executes_four:
  assumes "executes 4 c"
  shows "executes 2 c"
    and "next_fault (c\<lparr>faults := tl (tl (faults c))\<rparr>) = None"
    and "next_fault (c\<lparr>faults := tl (tl (tl (faults c)))\<rparr>) = None"
proof -
  from assms show "executes 2 c"
    using set_take_subset_set_take [of 2 4 "faults c"] by (auto simp: executes_def)
  show "next_fault (c\<lparr>faults := tl (tl (faults c))\<rparr>) = None"
    using assms executes_next_fault [of 4 c 2 "c\<lparr>faults := tl (tl (faults c))\<rparr>"]
    by (simp add: drop_Suc numeral_2_eq_2)
  show "next_fault (c\<lparr>faults := tl (tl (tl (faults c)))\<rparr>) = None"
    using assms executes_next_fault [of 4 c 3 "c\<lparr>faults := tl (tl (tl (faults c)))\<rparr>"]
    by (simp add: drop_Suc numeral_3_eq_3)
qed

text \<open>The INSERT keeps the ids below the counter, so the invariant the round trip
  rests on holds after every save.\<close>

lemma SaveCorporation_ids_below_counter:
  assumes "ids_below_counter c" and "SaveCorporation c h p = Returned (res, h', c')"
  shows "ids_below_counter c'"
proof (cases "h p")
  case None
  with assms(2) show ?thesis by (simp add: SaveCorporation_def)
next
  case (Some corp)
  have u: "col_id (update_row e k l i r) = col_id r" for e k l i r
    by (simp add: update_row_def)
  show ?thesis
  proof (cases "0 < ID corp")
    case True
    with Some assms show ?thesis
      by (auto simp: SaveCorporation_update_eq ids_below_counter_def u split: option.splits)
  next
    case False
    with Some assms show ?thesis
      by (fastforce simp: SaveCorporation_insert_eq ids_below_counter_def new_row_def
          split: option.splits)
  qed
qed

text \<open>
  C5. Round trip. An entity with the ID unset is saved; the id of the returned entity
  is then loaded. When the four driver calls execute (and the ids in the table lie
  below the auto-increment counter), the load returns an organization with that id
  whose external ID, \<open>LastKillID\<close> and \<open>LastLossID\<close> are the saved ones.
\<close>

theorem save_then_load_roundtrip:
  assumes "h p = Some corp" and "ID corp = 0" and "executes 4 c" and "ids_below_counter c"
  shows "\<exists>h' c' saved loaded c''.
           SaveCorporation c h p = Returned ((Some p, None), h', c') \<and>
           h' p = Some saved \<and>
           LoadCorporation c' (ID saved) = ((Some loaded, None), c'') \<and>
           ID loaded = ID saved \<and>
           EVECorporationID loaded = EVECorporationID corp \<and>
           LastKillID loaded = LastKillID corp \<and>
           LastLossID loaded = LastLossID corp"
proof -
  let ?row = "new_row c (EVECorporationID corp) (LastKillID corp) (LastLossID corp)"
  let ?c' = "c\<lparr>faults := tl (tl (faults c)),
                table_corporations := table_corporations c @ [?row],
                auto_increment := auto_increment c + 1\<rparr>"
  let ?saved = "corp\<lparr>ID := auto_increment c\<rparr>"
  let ?loaded = "(to_Corporation ?row)\<lparr>IgnoredRegions := regions_of ?c' (auto_increment c)\<rparr>"
  note e = executes_four [OF assms(3)]
  have save: "SaveCorporation c h p = Returned ((Some p, None), h(p \<mapsto> ?saved), ?c')"
    using assms(1,2) executes_two [OF e(1)] by (simp add: SaveCorporation_insert_eq)
  have "\<forall>r\<in>set (table_corporations c). \<not> col_id r = auto_increment c"
    using assms(4) by (auto simp: ids_below_counter_def)
  then have found: "find (\<lambda>r. col_id r = auto_increment c) (table_corporations c @ [?row])
      = Some ?row"
    by (rule find_append_new) (simp add: new_row_def)
  have n1: "next_fault ?c' = None"
    using e(2) by (simp add: next_fault_def)
  have n2: "next_fault (?c'\<lparr>faults := tl (faults ?c')\<rparr>) = None"
    using e(3) by (simp add: next_fault_def)
  have "fst (LoadCorporation ?c' (auto_increment c)) = (Some ?loaded, None)"
    using found n1 n2 by (simp add: LoadCorporation_fst)
  then obtain c'' where load: "LoadCorporation ?c' (ID ?saved) = ((Some ?loaded, None), c'')"
    by (cases "LoadCorporation ?c' (auto_increment c)") auto
  have fields: "ID ?loaded = ID ?saved" "EVECorporationID ?loaded = EVECorporationID corp"
    "LastKillID ?loaded = LastKillID corp" "LastLossID ?loaded = LastLossID corp"
    by (simp_all add: to_Corporation_def new_row_def)
  have "(h(p \<mapsto> ?saved)) p = Some ?saved" by simp
  with save load fields show ?thesis by blast
qed

theorem save_then_load_roundtrip_witness:
  "ID new_corp = 0 \<and> executes 4 example_connection \<and> ids_below_counter example_connection \<and>
   (\<exists>h' c' saved loaded c''.
      SaveCorporation example_connection [0 \<mapsto> new_corp] 0 =
        Returned ((Some 0, None), h', c') \<and>
      h' 0 = Some saved \<and>
      LoadCorporation c' (ID saved) = ((Some loaded, None), c'') \<and>
      ID loaded = ID saved \<and>
      EVECorporationID loaded = 98765 \<and> LastKillID loaded = 11 \<and> LastLossID loaded = 12)"
proof -
  have hyps: "[0 \<mapsto> new_corp] 0 = Some new_corp" "ID new_corp = 0"
    "executes 4 example_connection" "ids_below_counter example_connection"
    by (simp_all add: new_corp_def executes_def ids_below_counter_def example_connection_def)
  from save_then_load_roundtrip [of "[0 \<mapsto> new_corp]" 0 new_corp example_connection, OF hyps]
    hyps(2-4) show ?thesis
    by (simp add: new_corp_def)
qed

subsection \<open>RawQuery: when it returns an error\<close>






end
